theory Spec2Isabelle
  imports Main
begin

section \<open>The asset fetcher: scripts/download\_model.py\<close>

subsection \<open>Paths as Python strings\<close>

text \<open>
  The script names files by relative POSIX path strings. \<open>os.path.dirname\<close> is a pure
  string function: with \<open>i = p.rfind('/') + 1\<close> it returns \<open>p[:i]\<close>, stripped of its
  trailing slashes unless it consists of slashes only.
\<close>

definition rstrip_slash :: "string \<Rightarrow> string" where
  "rstrip_slash s = rev (dropWhile (\<lambda>c. c = CHR ''/'') (rev s))"

definition os_path_dirname :: "string \<Rightarrow> string" where
  "os_path_dirname p =
     (let i = length (dropWhile (\<lambda>c. c \<noteq> CHR ''/'') (rev p));
          head = take i p
      in if head \<noteq> [] \<and> head \<noteq> replicate (length head) (CHR ''/'')
         then rstrip_slash head else head)"

text \<open>
  The operating system resolves a relative path component by component from the current
  directory. Only relative paths without \<open>.\<close> and \<open>..\<close> components are modelled,
  which is all the script uses.
\<close>

type_synonym path = "string list"

fun split_on :: "char \<Rightarrow> string \<Rightarrow> string list" where
  "split_on c [] = [[]]"
| "split_on c (x # xs) =
     (if x = c then [] # split_on c xs
      else (case split_on c xs of [] \<Rightarrow> [[x]] | y # ys \<Rightarrow> (x # y) # ys))"

definition components :: "string \<Rightarrow> path" where
  "components s = filter (\<lambda>x. x \<noteq> []) (split_on (CHR ''/'') s)"

subsection \<open>The file system\<close>

text \<open>
  A file system maps each existing path (relative to the current directory, which is the
  path \<open>[]\<close>) to a regular file with its bytes or to a directory. Symbolic links and
  permissions are not modelled: the process may search and write every directory.
\<close>

type_synonym bytes = "char list"

datatype node = File bytes | Dir

type_synonym filesystem = "path \<rightharpoonup> node"

definition is_dir :: "filesystem \<Rightarrow> path \<Rightarrow> bool" where
  "is_dir fs p = (fs p = Some Dir)"

text \<open>In a real file system the current directory exists and every entry lies in a directory.\<close>

definition well_formed :: "filesystem \<Rightarrow> bool" where
  "well_formed fs \<longleftrightarrow>
     fs [] = Some Dir \<and> (\<forall>p. p \<noteq> [] \<longrightarrow> fs p \<noteq> None \<longrightarrow> fs (butlast p) = Some Dir)"

datatype py_error =
    FileExistsError
  | FileNotFoundError
  | NotADirectoryError
  | IsADirectoryError
  | URLError
  | HTTPError nat
  | ContentTooShortError
  | OSError

text \<open>\<open>os.path.exists(name)\<close>; the empty name does not exist.\<close>

definition os_path_exists :: "string \<Rightarrow> filesystem \<Rightarrow> bool" where
  "os_path_exists name fs = (name \<noteq> [] \<and> fs (components name) \<noteq> None)"

text \<open>
  \<open>os.mkdir(p)\<close>: fails when \<open>p\<close> exists, when its parent is missing or when its parent
  is not a directory; otherwise it creates an empty directory.
\<close>

definition mkdir :: "path \<Rightarrow> filesystem \<Rightarrow> py_error + filesystem" where
  "mkdir p fs =
     (if p = [] then Inl FileNotFoundError
      else if fs p \<noteq> None then Inl FileExistsError
      else (case fs (butlast p) of
              None \<Rightarrow> Inl FileNotFoundError
            | Some (File _) \<Rightarrow> Inl NotADirectoryError
            | Some Dir \<Rightarrow> Inr (fs(p \<mapsto> Dir))))"

text \<open>
  \<open>os.makedirs(name, exist_ok)\<close> as CPython defines it, on the components of the name:
  \<^verbatim>\<open>
  head, tail = path.split(name)
  if head and tail and not path.exists(head):
      try: makedirs(head, exist_ok=exist_ok)
      except FileExistsError: pass
  try: mkdir(name, mode)
  except OSError:
      if not exist_ok or not path.isdir(name): raise
  \<close>
  The result carries the file system as the call leaves it, also when it raises.
\<close>

function makedirs_at :: "path \<Rightarrow> bool \<Rightarrow> filesystem \<Rightarrow> (py_error + unit) \<times> filesystem" where
  "makedirs_at p exist_ok fs =
     (let head = butlast p;
          (r0, fs0) =
            (if head \<noteq> [] \<and> fs head = None
             then (case makedirs_at head exist_ok fs of
                     (Inl FileExistsError, fs') \<Rightarrow> (Inr (), fs')
                   | other \<Rightarrow> other)
             else (Inr (), fs))
      in case r0 of
           Inl e \<Rightarrow> (Inl e, fs0)
         | Inr _ \<Rightarrow>
             (case mkdir p fs0 of
                Inl e \<Rightarrow> if \<not> exist_ok \<or> \<not> is_dir fs0 p then (Inl e, fs0) else (Inr (), fs0)
              | Inr fs1 \<Rightarrow> (Inr (), fs1)))"
  by pat_completeness auto
termination
proof (relation "measure (\<lambda>(p, ok, fs). length p)")
  show "wf (measure (\<lambda>(p, ok, fs). length p))"
    by simp
next
  fix p :: path and exist_ok :: bool and fs :: filesystem and x :: path
  assume "x = butlast p" and "x \<noteq> [] \<and> fs x = None"
  then have "p \<noteq> []"
    by auto
  with \<open>x = butlast p\<close> show "((x, exist_ok, fs), (p, exist_ok, fs)) \<in> measure (\<lambda>(p, ok, fs). length p)"
    by simp
qed

declare makedirs_at.simps [simp del]

definition os_makedirs :: "string \<Rightarrow> bool \<Rightarrow> filesystem \<Rightarrow> (py_error + unit) \<times> filesystem" where
  "os_makedirs name exist_ok fs = makedirs_at (components name) exist_ok fs"

text \<open>
  \<open>open(filename, 'wb')\<close>: creates the file empty, or truncates it; fails on a directory
  and when the parent is missing or is not a directory.
\<close>

definition open_wb :: "path \<Rightarrow> filesystem \<Rightarrow> py_error + filesystem" where
  "open_wb p fs =
     (case fs p of
        Some Dir \<Rightarrow> Inl IsADirectoryError
      | Some (File _) \<Rightarrow> Inr (fs(p \<mapsto> File []))
      | None \<Rightarrow>
          (if p = [] then Inl FileNotFoundError
           else (case fs (butlast p) of
                   None \<Rightarrow> Inl FileNotFoundError
                 | Some (File _) \<Rightarrow> Inl NotADirectoryError
                 | Some Dir \<Rightarrow> Inr (fs(p \<mapsto> File [])))))"

subsection \<open>The network and the world\<close>

text \<open>
  What the network does with a request is outside the program. A request either fails
  before a response is opened (DNS failure, refused connection, HTTP error status), or
  delivers the whole body, or breaks after part of the body was received (a reset
  connection, or fewer bytes than the announced length).
\<close>

datatype transfer =
    OpenFailed py_error
  | Complete bytes
  | Interrupted bytes py_error

record world =
  disk :: filesystem
  requests :: "string list"
  stdout :: "string list"

definition print :: "string \<Rightarrow> world \<Rightarrow> world" where
  "print s w = w\<lparr>stdout := stdout w @ [s]\<rparr>"

text \<open>
  \<open>urllib.request.urlretrieve(url, filename)\<close> as CPython defines it: it opens the URL
  first, then opens the destination for writing, copies the response block by block, and
  raises afterwards when the body was short. Nothing removes a file it has begun.
\<close>

definition urlretrieve ::
  "(string \<Rightarrow> transfer) \<Rightarrow> string \<Rightarrow> string \<Rightarrow> world \<Rightarrow> (py_error + unit) \<times> world" where
  "urlretrieve net url filename w =
     (let w1 = w\<lparr>requests := requests w @ [url]\<rparr>
      in case net url of
           OpenFailed e \<Rightarrow> (Inl e, w1)
         | Complete body \<Rightarrow>
             (case open_wb (components filename) (disk w1) of
                Inl e \<Rightarrow> (Inl e, w1)
              | Inr fs1 \<Rightarrow> (Inr (), w1\<lparr>disk := fs1(components filename \<mapsto> File body)\<rparr>))
         | Interrupted part e \<Rightarrow>
             (case open_wb (components filename) (disk w1) of
                Inl e' \<Rightarrow> (Inl e', w1)
              | Inr fs1 \<Rightarrow> (Inl e, w1\<lparr>disk := fs1(components filename \<mapsto> File part)\<rparr>)))"

subsection \<open>The script\<close>

definition MODEL_URL :: string where
  "MODEL_URL = ''https://raw.githubusercontent.com/snakers4/silero-vad/master/src/silero_vad/data/silero_vad.onnx''"

definition OUTPUT_PATH :: string where
  "OUTPUT_PATH = ''app/src/main/assets/silero_vad.onnx''"

text \<open>The check mark U+2713 that starts two of the printed lines, in UTF-8.\<close>

definition check_mark :: string where
  "check_mark = [CHR 0xE2, CHR 0x9C, CHR 0x93]"

definition main :: "(string \<Rightarrow> transfer) \<Rightarrow> world \<Rightarrow> (py_error + unit) \<times> world" where
  "main net w =
     (case os_makedirs (os_path_dirname OUTPUT_PATH) True (disk w) of
        (Inl e, fs1) \<Rightarrow> (Inl e, w\<lparr>disk := fs1\<rparr>)
      | (Inr _, fs1) \<Rightarrow>
          (let w1 = w\<lparr>disk := fs1\<rparr>
           in if os_path_exists OUTPUT_PATH (disk w1)
              then (Inr (), print (check_mark @ '' Model already exists: '' @ OUTPUT_PATH) w1)
              else (let w2 = print ''Downloading Silero VAD model...'' w1
                    in case urlretrieve net MODEL_URL OUTPUT_PATH w2 of
                         (Inl e, w3) \<Rightarrow> (Inl e, w3)
                       | (Inr _, w3) \<Rightarrow>
                           (Inr (), print (check_mark @ '' Downloaded to: '' @ OUTPUT_PATH) w3))))"

text \<open>
  \<open>if __name__ == "__main__": main()\<close>: the interpreter ends with status 0 when
  \<open>main\<close> returns; an exception that reaches the top level is printed as a traceback
  and the status is 1.
\<close>

record process_end =
  exit_status :: nat
  traceback :: "py_error option"
  final :: world

definition script :: "(string \<Rightarrow> transfer) \<Rightarrow> world \<Rightarrow> process_end" where
  "script net w =
     (case main net w of
        (Inl e, w') \<Rightarrow> \<lparr>exit_status = 1, traceback = Some e, final = w'\<rparr>
      | (Inr _, w') \<Rightarrow> \<lparr>exit_status = 0, traceback = None, final = w'\<rparr>)"

text \<open>Names for the two paths of the script, as the operating system resolves them.\<close>

definition dest_dir :: path where
  "dest_dir = components (os_path_dirname OUTPUT_PATH)"

definition dest_file :: path where
  "dest_file = components OUTPUT_PATH"

text \<open>\<open>leads_to q p\<close>: the path \<open>q\<close> is \<open>p\<close> or one of its parents below the current directory.\<close>

definition leads_to :: "path \<Rightarrow> path \<Rightarrow> bool" where
  "leads_to q p \<longleftrightarrow> q \<noteq> [] \<and> take (length q) p = q"

subsection \<open>Example worlds\<close>

definition cwd_only :: filesystem where
  "cwd_only = [[] \<mapsto> Dir]"

definition installed :: filesystem where
  "installed =
     [[] \<mapsto> Dir,
      [''app''] \<mapsto> Dir,
      [''app'', ''src''] \<mapsto> Dir,
      [''app'', ''src'', ''main''] \<mapsto> Dir,
      [''app'', ''src'', ''main'', ''assets''] \<mapsto> Dir,
      [''app'', ''src'', ''main'', ''assets'', ''silero_vad.onnx''] \<mapsto> File ''old'']"

definition fresh_world :: world where
  "fresh_world = \<lparr>disk = cwd_only, requests = [], stdout = []\<rparr>"

definition installed_world :: world where
  "installed_world = \<lparr>disk = installed, requests = [], stdout = []\<rparr>"

definition serves_ABC :: "string \<Rightarrow> transfer" where
  "serves_ABC url = Complete ''ABC''"

definition unreachable :: "string \<Rightarrow> transfer" where
  "unreachable url = OpenFailed URLError"

definition drops_after_AB :: "string \<Rightarrow> transfer" where
  "drops_after_AB url = Interrupted ''AB'' ContentTooShortError"

section \<open>The session orchestrator: agent/agent.py\<close>

subsection \<open>Exceptions and the outcome of a call\<close>

text \<open>
  An exception is an instance of a class with its text. \<open>ExceptionSubclass n\<close> stands for
  the class \<open>Exception\<close> or a class derived from it, named \<open>n\<close>; the other classes derive
  from \<open>BaseException\<close> only.
\<close>

datatype exc_class =
    ExceptionSubclass string
  | CancelledError
  | KeyboardInterrupt
  | SystemExit
  | GeneratorExit

datatype exn = Exn (exn_class: exc_class) (exn_str: string)

fun isinstance_Exception :: "exn \<Rightarrow> bool" where
  "isinstance_Exception (Exn (ExceptionSubclass n) s) = True"
| "isinstance_Exception (Exn c s) = False"

text \<open>
  A call returns a value, raises, or (when it is awaited) never resolves, which leaves the
  coroutine suspended for good.
\<close>

datatype 'a outcome = Returns 'a | Raises exn | Suspended

subsection \<open>The objects the entrypoint builds and the calls it makes\<close>

datatype RealtimeModel = RealtimeModel (model: string) (instructions: string)

datatype AgentSession = AgentSession (llm: RealtimeModel)

datatype Agent = Agent (agent_instructions: string)

datatype event =
    LogInfo string
  | LogError string bool
  | Connect
  | WaitForParticipant
  | NewRealtimeModel string string
  | NewAgentSession RealtimeModel
  | NewAgent string
  | SessionStart AgentSession string Agent
  | GenerateReply AgentSession string
  | AwaitFuture

text \<open>
  One invocation: the job context handed in by the worker runtime and what the external
  framework does with each call of this invocation. A constructor is a plain call (it
  returns or raises); the four awaited calls may also never resolve. The bare future the
  entrypoint awaits at its end belongs to nobody else, so it ends only when the task is
  cancelled while it waits.
\<close>

record job =
  room_name :: string
  connect :: "unit outcome"
  wait_for_participant :: "string outcome"
  new_RealtimeModel :: "exn option"
  new_AgentSession :: "exn option"
  new_Agent :: "exn option"
  session_start :: "unit outcome"
  generate_reply :: "unit outcome"
  cancelled :: bool

type_synonym 'a act = "event list \<Rightarrow> 'a outcome \<times> event list"

definition call :: "event \<Rightarrow> 'a outcome \<Rightarrow> 'a act" where
  "call ev r t = (r, t @ [ev])"

definition construct :: "exn option \<Rightarrow> 'a \<Rightarrow> 'a outcome" where
  "construct failure x = (case failure of None \<Rightarrow> Returns x | Some e \<Rightarrow> Raises e)"

definition and_then :: "'a act \<Rightarrow> ('a \<Rightarrow> 'b act) \<Rightarrow> 'b act" where
  "and_then m f t =
     (case m t of
        (Returns x, t') \<Rightarrow> f x t'
      | (Raises e, t') \<Rightarrow> (Raises e, t')
      | (Suspended, t') \<Rightarrow> (Suspended, t'))"

text \<open>\<open>try: m except Exception as e: h e\<close>\<close>

definition try_except_Exception :: "unit act \<Rightarrow> (exn \<Rightarrow> unit act) \<Rightarrow> unit act" where
  "try_except_Exception m h t =
     (case m t of
        (Raises e, t') \<Rightarrow> if isinstance_Exception e then h e t' else (Raises e, t')
      | other \<Rightarrow> other)"

definition logger_info :: "string \<Rightarrow> unit act" where
  "logger_info msg = call (LogInfo msg) (Returns ())"

definition logger_error :: "string \<Rightarrow> bool \<Rightarrow> unit act" where
  "logger_error msg exc_info = call (LogError msg exc_info) (Returns ())"

text \<open>\<open>await asyncio.Future()\<close>\<close>

definition await_Future :: "job \<Rightarrow> unit act" where
  "await_Future ctx =
     call AwaitFuture (if cancelled ctx then Raises (Exn CancelledError []) else Suspended)"

subsection \<open>The entrypoint\<close>

definition entrypoint_body :: "job \<Rightarrow> unit act" where
  "entrypoint_body ctx =
     and_then (logger_info (''Connecting to room '' @ room_name ctx)) (\<lambda>_.
     and_then (call Connect (connect ctx)) (\<lambda>_.
     and_then (call WaitForParticipant (wait_for_participant ctx)) (\<lambda>identity.
     and_then (logger_info (''Participant connected: '' @ identity)) (\<lambda>_.
     and_then (call (NewRealtimeModel ''gemini-2.0-flash-exp''
                       ''You are Vanta, a helpful assistant.'')
                 (construct (new_RealtimeModel ctx)
                    (RealtimeModel ''gemini-2.0-flash-exp''
                       ''You are Vanta, a helpful assistant.''))) (\<lambda>model.
     and_then (call (NewAgentSession model)
                 (construct (new_AgentSession ctx) (AgentSession model))) (\<lambda>session.
     and_then (call (NewAgent ''You are Vanta.'')
                 (construct (new_Agent ctx) (Agent ''You are Vanta.''))) (\<lambda>agent.
     and_then (call (SessionStart session (room_name ctx) agent) (session_start ctx)) (\<lambda>_.
     and_then (call (GenerateReply session
                       ''Say hello to the user and introduce yourself as Vanta.'')
                 (generate_reply ctx)) (\<lambda>_.
     await_Future ctx)))))))))"

definition entrypoint :: "job \<Rightarrow> unit act" where
  "entrypoint ctx =
     try_except_Exception (entrypoint_body ctx)
       (\<lambda>e. logger_error (''CRITICAL ERROR: '' @ exn_str e) True)"

subsection \<open>Observing a run\<close>

text \<open>
  The external calls of the entrypoint in source order. The specification's steps 1 to 6
  are the first seven (its step 5 builds the agent descriptor and starts the session);
  step 7 is the wait on the bare future.
\<close>

datatype step =
    S_connect | S_wait | S_model | S_session | S_agent | S_start | S_greet | S_future

definition steps_1_to_6 :: "step list" where
  "steps_1_to_6 = [S_connect, S_wait, S_model, S_session, S_agent, S_start, S_greet]"

definition steps_1_to_7 :: "step list" where
  "steps_1_to_7 = steps_1_to_6 @ [S_future]"

definition forget :: "'a outcome \<Rightarrow> unit outcome" where
  "forget r = (case r of Returns x \<Rightarrow> Returns () | Raises e \<Rightarrow> Raises e | Suspended \<Rightarrow> Suspended)"

fun step_result :: "job \<Rightarrow> step \<Rightarrow> unit outcome" where
  "step_result ctx S_connect = connect ctx"
| "step_result ctx S_wait = forget (wait_for_participant ctx)"
| "step_result ctx S_model = construct (new_RealtimeModel ctx) ()"
| "step_result ctx S_session = construct (new_AgentSession ctx) ()"
| "step_result ctx S_agent = construct (new_Agent ctx) ()"
| "step_result ctx S_start = session_start ctx"
| "step_result ctx S_greet = generate_reply ctx"
| "step_result ctx S_future = (if cancelled ctx then Raises (Exn CancelledError []) else Suspended)"

fun event_step :: "event \<Rightarrow> step option" where
  "event_step Connect = Some S_connect"
| "event_step WaitForParticipant = Some S_wait"
| "event_step (NewRealtimeModel m i) = Some S_model"
| "event_step (NewAgentSession m) = Some S_session"
| "event_step (NewAgent i) = Some S_agent"
| "event_step (SessionStart s r a) = Some S_start"
| "event_step (GenerateReply s i) = Some S_greet"
| "event_step AwaitFuture = Some S_future"
| "event_step (LogInfo m) = None"
| "event_step (LogError m x) = None"

text \<open>The steps a run has invoked, in order, and the error entries it has logged.\<close>

definition invoked :: "event list \<Rightarrow> step list" where
  "invoked t = List.map_filter event_step t"

fun is_error_entry :: "event \<Rightarrow> bool" where
  "is_error_entry (LogError m x) = True"
| "is_error_entry ev = False"

definition error_entries :: "event list \<Rightarrow> event list" where
  "error_entries t = filter is_error_entry t"

text \<open>The steps before step \<open>k\<close>.\<close>

definition before :: "step \<Rightarrow> step list" where
  "before k = takeWhile (\<lambda>s. s \<noteq> k) steps_1_to_7"

subsection \<open>Example invocations\<close>

definition happy_job :: job where
  "happy_job =
     \<lparr>room_name = ''lobby'', connect = Returns (), wait_for_participant = Returns ''alice'',
      new_RealtimeModel = None, new_AgentSession = None, new_Agent = None,
      session_start = Returns (), generate_reply = Returns (), cancelled = False\<rparr>"

definition connect_fails_job :: job where
  "connect_fails_job =
     happy_job\<lparr>connect := Raises (Exn (ExceptionSubclass ''ConnectionError'') ''refused'')\<rparr>"

definition start_fails_job :: job where
  "start_fails_job =
     happy_job\<lparr>session_start := Raises (Exn (ExceptionSubclass ''RuntimeError'') ''boom'')\<rparr>"

definition wait_cancelled_job :: job where
  "wait_cancelled_job = happy_job\<lparr>wait_for_participant := Raises (Exn CancelledError [])\<rparr>"

definition start_cancelled_job :: job where
  "start_cancelled_job = happy_job\<lparr>session_start := Raises (Exn CancelledError [])\<rparr>"

section \<open>Properties of the asset fetcher\<close>

lemma dirname_OUTPUT_PATH: "os_path_dirname OUTPUT_PATH = ''app/src/main/assets''"
  by code_simp

lemma dest_dir_eq: "dest_dir = [''app'', ''src'', ''main'', ''assets'']"
  by code_simp

lemma dest_file_eq: "dest_file = [''app'', ''src'', ''main'', ''assets'', ''silero_vad.onnx'']"
  by code_simp

lemma OUTPUT_PATH_nonempty: "OUTPUT_PATH \<noteq> []"
  by (simp add: OUTPUT_PATH_def)

lemma leads_to_butlast: "leads_to q (butlast p) \<Longrightarrow> leads_to q p"
proof -
  assume a: "leads_to q (butlast p)"
  then have "take (length q) (take (length p - 1) p) = q" and "q \<noteq> []"
    by (simp_all add: leads_to_def butlast_conv_take)
  then have "length q \<le> length p - 1"
    by (metis length_take min.cobounded2 min.cobounded1 order_trans)
  with \<open>take (length q) (take (length p - 1) p) = q\<close> \<open>q \<noteq> []\<close> show ?thesis
    by (simp add: leads_to_def min_def)
qed

lemma leads_to_self: "p \<noteq> [] \<Longrightarrow> leads_to p p"
  by (simp add: leads_to_def)

lemma leads_to_parent: "butlast p \<noteq> [] \<Longrightarrow> leads_to (butlast p) p"
  by (simp add: leads_to_def butlast_conv_take)

lemma swallow_eq:
  "(case x of (Inl FileExistsError, fs') \<Rightarrow> (Inr (), fs') | other \<Rightarrow> other) =
   (if fst x = Inl FileExistsError then (Inr (), snd x) else x)"
  by (auto split: prod.splits sum.splits py_error.splits)

lemma mkdir_Inr:
  "mkdir p fs = Inr fs1 \<longleftrightarrow>
     p \<noteq> [] \<and> fs p = None \<and> fs (butlast p) = Some Dir \<and> fs1 = fs(p \<mapsto> Dir)"
  by (auto simp add: mkdir_def split: option.splits node.splits)

lemma mkdir_FileExists: "mkdir p fs = Inl FileExistsError \<Longrightarrow> fs p \<noteq> None"
  by (auto simp add: mkdir_def split: option.splits node.splits if_splits)

text \<open>One step of makedirs, with the recursive call named.\<close>

lemma makedirs_at_step:
  assumes "makedirs_at p ok fs = (r, fs')"
  obtains (direct) "butlast p = [] \<or> fs (butlast p) \<noteq> None"
      "(case mkdir p fs of
          Inl e \<Rightarrow> if \<not> ok \<or> \<not> is_dir fs p then (Inl e, fs) else (Inr (), fs)
        | Inr fs1 \<Rightarrow> (Inr (), fs1)) = (r, fs')"
    | (failed) e where "butlast p \<noteq> []" "fs (butlast p) = None"
      "makedirs_at (butlast p) ok fs = (Inl e, fs')" "e \<noteq> FileExistsError" "r = Inl e"
    | (nested) r1 fs0 where "butlast p \<noteq> []" "fs (butlast p) = None"
      "makedirs_at (butlast p) ok fs = (r1, fs0)" "r1 = Inr () \<or> r1 = Inl FileExistsError"
      "(case mkdir p fs0 of
          Inl e \<Rightarrow> if \<not> ok \<or> \<not> is_dir fs0 p then (Inl e, fs0) else (Inr (), fs0)
        | Inr fs1 \<Rightarrow> (Inr (), fs1)) = (r, fs')"
proof (cases "butlast p \<noteq> [] \<and> fs (butlast p) = None")
  case False
  with assms show ?thesis
    by (intro direct) (auto simp add: makedirs_at.simps [of p])
next
  case True
  obtain r1 fs0 where rec: "makedirs_at (butlast p) ok fs = (r1, fs0)"
    by (cases "makedirs_at (butlast p) ok fs")
  show ?thesis
  proof (cases r1)
    case (Inl e)
    show ?thesis
    proof (cases "e = FileExistsError")
      case True
      with Inl rec \<open>butlast p \<noteq> [] \<and> fs (butlast p) = None\<close> assms show ?thesis
        by (intro nested [of r1 fs0]) (auto simp add: makedirs_at.simps [of p] swallow_eq)
    next
      case False
      with Inl rec \<open>butlast p \<noteq> [] \<and> fs (butlast p) = None\<close> assms show ?thesis
        by (intro failed [of e]) (auto simp add: makedirs_at.simps [of p] swallow_eq)
    qed
  next
    case (Inr u)
    with rec True assms show ?thesis
      by (intro nested [of r1 fs0]) (auto simp add: makedirs_at.simps [of p] swallow_eq)
  qed
qed

lemma finish_cases:
  assumes "(case mkdir p fs0 of
          Inl e \<Rightarrow> if \<not> ok \<or> \<not> is_dir fs0 p then (Inl e, fs0) else (Inr (), fs0)
        | Inr fs1 \<Rightarrow> (Inr (), fs1)) = (r, fs')"
  shows "(fs' = fs0 \<and> (r = Inr () \<longrightarrow> ok \<and> is_dir fs0 p) \<and> (r = Inl FileExistsError \<longrightarrow> fs0 p \<noteq> None)) \<or>
         (r = Inr () \<and> p \<noteq> [] \<and> fs0 p = None \<and> fs0 (butlast p) = Some Dir \<and> fs' = fs0(p \<mapsto> Dir))"
  using assms
  by (cases "mkdir p fs0") (auto simp add: mkdir_Inr dest: mkdir_FileExists split: if_splits)

lemma makedirs_at_grows:
  "makedirs_at p ok fs = (r, fs') \<Longrightarrow>
     fs' q = fs q \<or> (fs q = None \<and> fs' q = Some Dir \<and> leads_to q p)"
proof (induction p ok fs arbitrary: r fs' rule: makedirs_at.induct)
  case (1 p ok fs)
  from "1.prems" show ?case
  proof (cases rule: makedirs_at_step)
    case direct
    from finish_cases [OF direct(2)] show ?thesis
      by (cases "q = p") (auto simp add: leads_to_self)
  next
    case (failed e)
    with "1.IH" [OF refl _ failed(3)] show ?thesis
      by (auto intro: leads_to_butlast)
  next
    case (nested r1 fs0)
    from "1.IH" [OF refl _ nested(3)] nested(1,2)
    have ih: "fs0 q = fs q \<or> (fs q = None \<and> fs0 q = Some Dir \<and> leads_to q p)"
      by (auto intro: leads_to_butlast)
    from finish_cases [OF nested(5)]
    have "fs' = fs0 \<or> (p \<noteq> [] \<and> fs0 p = None \<and> fs' = fs0(p \<mapsto> Dir))"
      by auto
    then show ?thesis
    proof
      assume "fs' = fs0"
      with ih show ?thesis by simp
    next
      assume a: "p \<noteq> [] \<and> fs0 p = None \<and> fs' = fs0(p \<mapsto> Dir)"
      show ?thesis
      proof (cases "q = p")
        case True
        with a ih have "fs q = None" by auto
        with a True show ?thesis by (simp add: leads_to_self)
      next
        case False
        with a ih show ?thesis by simp
      qed
    qed
  qed
qed

lemma makedirs_at_keeps: "makedirs_at p ok fs = (r, fs') \<Longrightarrow> fs q \<noteq> None \<Longrightarrow> fs' q = fs q"
  using makedirs_at_grows [of p ok fs r fs' q] by auto

lemma makedirs_at_FileExists:
  "makedirs_at p ok fs = (Inl FileExistsError, fs') \<Longrightarrow> fs' p \<noteq> None"
proof -
  assume a: "makedirs_at p ok fs = (Inl FileExistsError, fs')"
  then show ?thesis
  proof (cases rule: makedirs_at_step)
  case direct
  from finish_cases [OF direct(2)] show ?thesis by auto
next
  case (failed e)
  then show ?thesis by simp
next
  case (nested r1 fs0)
  from finish_cases [OF nested(5)] show ?thesis by auto
qed
qed

lemma makedirs_at_success:
  assumes "makedirs_at p True fs = (Inr (), fs')"
  shows "is_dir fs' p \<and> (butlast p = [] \<or> fs' (butlast p) \<noteq> None)"
  using assms
proof (cases rule: makedirs_at_step)
  case direct
  from finish_cases [OF direct(2)] direct(1) show ?thesis
    by (auto simp add: is_dir_def)
next
  case (failed e)
  then show ?thesis by simp
next
  case (nested r1 fs0)
  have "fs0 (butlast p) \<noteq> None"
  proof (cases "r1 = Inr ()")
    case True
    with nested(3) have "makedirs_at (butlast p) True fs = (Inr (), fs0)" by simp
    then have "is_dir fs0 (butlast p)"
      by (cases rule: makedirs_at_step) (auto dest!: finish_cases simp add: is_dir_def)
    then show ?thesis by (simp add: is_dir_def)
  next
    case False
    with nested(3,4) show ?thesis
      by (auto dest: makedirs_at_FileExists)
  qed
  with finish_cases [OF nested(5)] nested(1) show ?thesis
    by (auto simp add: is_dir_def)
qed

lemma makedirs_at_noop:
  assumes "is_dir fs p" and "butlast p = [] \<or> fs (butlast p) \<noteq> None"
  shows "makedirs_at p True fs = (Inr (), fs)"
  using assms
  by (auto simp add: makedirs_at.simps [of p] mkdir_def is_dir_def)

lemma dest_file_parent: "butlast dest_file = dest_dir"
  by (simp add: dest_file_eq dest_dir_eq)

lemma dest_dir_nonempty: "dest_dir \<noteq> []" "butlast dest_dir \<noteq> []" "dest_file \<noteq> []"
  by (simp_all add: dest_file_eq dest_dir_eq)

lemma dest_file_not_dir: "\<not> leads_to dest_file dest_dir" "dest_file \<noteq> dest_dir"
  "dest_file \<noteq> butlast dest_dir"
  by (simp_all add: leads_to_def dest_file_eq dest_dir_eq)

lemma os_makedirs_dest: "os_makedirs (os_path_dirname OUTPUT_PATH) True fs = makedirs_at dest_dir True fs"
  by (simp add: os_makedirs_def dest_dir_def)

lemma os_path_exists_dest: "os_path_exists OUTPUT_PATH fs \<longleftrightarrow> fs dest_file \<noteq> None"
  by (simp add: os_path_exists_def dest_file_def OUTPUT_PATH_nonempty)

lemma well_formed_ancestors:
  "well_formed fs \<Longrightarrow> fs p \<noteq> None \<Longrightarrow> n < length p \<Longrightarrow> fs (take n p) = Some Dir"
proof (induction p rule: rev_induct)
  case Nil
  then show ?case by simp
next
  case (snoc x xs)
  from snoc.prems(1,2) have parent: "fs xs = Some Dir"
    by (auto simp add: well_formed_def)
  show ?case
  proof (cases "n < length xs")
    case True
    with snoc.IH [OF snoc.prems(1)] parent show ?thesis by simp
  next
    case False
    with snoc.prems(3) have "n = length xs" by simp
    with parent show ?thesis by simp
  qed
qed

lemma well_formed_parent: "well_formed fs \<Longrightarrow> fs p \<noteq> None \<Longrightarrow> fs (butlast p) = Some Dir"
  by (cases "p = []") (auto simp add: well_formed_def)

lemma well_formed_mkdir:
  assumes "well_formed fs" "p \<noteq> []" "fs p = None" "fs (butlast p) = Some Dir"
  shows "well_formed (fs(p \<mapsto> Dir))"
  unfolding well_formed_def
proof (intro conjI allI impI)
  from assms show "(fs(p \<mapsto> Dir)) [] = Some Dir"
    by (simp add: well_formed_def)
next
  fix q :: path
  assume q: "q \<noteq> []" "(fs(p \<mapsto> Dir)) q \<noteq> None"
  show "(fs(p \<mapsto> Dir)) (butlast q) = Some Dir"
  proof (cases "q = p")
    case True
    with assms show ?thesis by auto
  next
    case False
    with q assms(1) have "fs (butlast q) = Some Dir"
      by (simp add: well_formed_def)
    then show ?thesis by simp
  qed
qed

lemma makedirs_at_well_formed:
  "well_formed fs \<Longrightarrow> makedirs_at p ok fs = (r, fs') \<Longrightarrow> well_formed fs'"
proof (induction p ok fs arbitrary: r fs' rule: makedirs_at.induct)
  case (1 p ok fs)
  from "1.prems"(2) show ?case
  proof (cases rule: makedirs_at_step)
    case direct
    from finish_cases [OF direct(2)] "1.prems"(1) show ?thesis
      by (auto intro: well_formed_mkdir)
  next
    case (failed e)
    with "1.IH" [OF refl _ "1.prems"(1) failed(3)] show ?thesis
      by simp
  next
    case (nested r1 fs0)
    from "1.IH" [OF refl _ "1.prems"(1) nested(3)] nested(1,2) have "well_formed fs0"
      by simp
    with finish_cases [OF nested(5)] show ?thesis
      by (auto intro: well_formed_mkdir)
  qed
qed

lemma makedirs_at_succeeds:
  "well_formed fs \<Longrightarrow> p \<noteq> [] \<Longrightarrow>
   \<forall>q. leads_to q p \<longrightarrow> fs q = None \<or> fs q = Some Dir \<Longrightarrow>
   \<exists>fs'. makedirs_at p True fs = (Inr (), fs')"
proof (induction p "True" fs rule: makedirs_at.induct)
  case (1 p fs)
  have finish: "\<exists>fs'. (case mkdir p fs0 of
          Inl e \<Rightarrow> if \<not> True \<or> \<not> is_dir fs0 p then (Inl e, fs0) else (Inr (), fs0)
        | Inr fs1 \<Rightarrow> (Inr (), fs1)) = (Inr (), fs')"
    if "fs0 p = None \<or> fs0 p = Some Dir" "fs0 (butlast p) = Some Dir" for fs0
    using that "1.prems"(2) by (auto simp add: mkdir_def is_dir_def)
  show ?case
  proof (cases "butlast p \<noteq> [] \<and> fs (butlast p) = None")
    case False
    have "fs (butlast p) = Some Dir"
    proof (cases "butlast p = []")
      case True
      with "1.prems"(1) show ?thesis by (simp add: well_formed_def)
    next
      case False
      with \<open>\<not> (butlast p \<noteq> [] \<and> fs (butlast p) = None)\<close> "1.prems"(3) leads_to_parent [of p]
      show ?thesis by auto
    qed
    moreover from "1.prems"(2,3) have "fs p = None \<or> fs p = Some Dir"
      by (simp add: leads_to_self)
    ultimately obtain fs' where "(case mkdir p fs of
          Inl e \<Rightarrow> if \<not> True \<or> \<not> is_dir fs p then (Inl e, fs) else (Inr (), fs)
        | Inr fs1 \<Rightarrow> (Inr (), fs1)) = (Inr (), fs')"
      using finish [of fs] by blast
    with False show ?thesis
      by (auto simp add: makedirs_at.simps [of p])
  next
    case True
    from "1.prems"(3) have "\<forall>q. leads_to q (butlast p) \<longrightarrow> fs q = None \<or> fs q = Some Dir"
      by (auto intro: leads_to_butlast)
    with "1.hyps" [OF refl True "1.prems"(1)] True
    obtain fs0 where rec: "makedirs_at (butlast p) True fs = (Inr (), fs0)"
      by auto
    from makedirs_at_success [OF rec] have "fs0 (butlast p) = Some Dir"
      by (simp add: is_dir_def)
    moreover from "1.prems"(2,3) have "fs p = None \<or> fs p = Some Dir"
      by (simp add: leads_to_self)
    with makedirs_at_grows [OF rec, of p] have "fs0 p = None \<or> fs0 p = Some Dir"
      by auto
    ultimately obtain fs' where "(case mkdir p fs0 of
          Inl e \<Rightarrow> if \<not> True \<or> \<not> is_dir fs0 p then (Inl e, fs0) else (Inr (), fs0)
        | Inr fs1 \<Rightarrow> (Inr (), fs1)) = (Inr (), fs')"
      using finish [of fs0] by blast
    with True rec show ?thesis
      by (auto simp add: makedirs_at.simps [of p])
  qed
qed

text \<open>The three ways main can go.\<close>

lemma main_makedirs_raises:
  assumes "makedirs_at dest_dir True (disk w) = (Inl e, fs1)"
  shows "main net w = (Inl e, w\<lparr>disk := fs1\<rparr>)"
  using assms by (simp add: main_def os_makedirs_dest)

lemma main_file_present:
  assumes "makedirs_at dest_dir True (disk w) = (Inr (), fs1)" and "fs1 dest_file \<noteq> None"
  shows "main net w =
     (Inr (), print (check_mark @ '' Model already exists: '' @ OUTPUT_PATH) (w\<lparr>disk := fs1\<rparr>))"
  using assms by (simp add: main_def os_makedirs_dest os_path_exists_dest)

lemma main_file_absent:
  assumes "makedirs_at dest_dir True (disk w) = (Inr (), fs1)" and "fs1 dest_file = None"
  shows "main net w =
     (case net MODEL_URL of
        OpenFailed e \<Rightarrow>
          (Inl e, w\<lparr>disk := fs1, requests := requests w @ [MODEL_URL],
                    stdout := stdout w @ [''Downloading Silero VAD model...'']\<rparr>)
      | Complete body \<Rightarrow>
          (Inr (), w\<lparr>disk := fs1(dest_file \<mapsto> File body), requests := requests w @ [MODEL_URL],
                     stdout := stdout w @ [''Downloading Silero VAD model...'',
                                           check_mark @ '' Downloaded to: '' @ OUTPUT_PATH]\<rparr>)
      | Interrupted part e \<Rightarrow>
          (Inl e, w\<lparr>disk := fs1(dest_file \<mapsto> File part), requests := requests w @ [MODEL_URL],
                    stdout := stdout w @ [''Downloading Silero VAD model...'']\<rparr>))"
proof -
  from makedirs_at_success [OF assms(1)] have "fs1 dest_dir = Some Dir"
    by (simp add: is_dir_def)
  with assms(2) have "open_wb dest_file fs1 = Inr (fs1(dest_file \<mapsto> File []))"
    by (simp add: open_wb_def dest_file_parent dest_dir_nonempty)
  with assms show ?thesis
    by (simp add: main_def os_makedirs_dest os_path_exists_dest urlretrieve_def print_def
        dest_file_def [symmetric] split: transfer.splits)
qed

lemma well_formed_cwd_only: "well_formed cwd_only"
  by (simp add: well_formed_def cwd_only_def)

lemma well_formed_installed: "well_formed installed"
  by (auto simp add: well_formed_def installed_def split: if_splits)

lemma cwd_only_absent: "p \<noteq> [] \<Longrightarrow> cwd_only p = None"
  by (simp add: cwd_only_def)

lemma installed_dest: "installed dest_file = Some (File ''old'')" "installed dest_dir = Some Dir"
  by (simp_all add: installed_def dest_file_eq dest_dir_eq)

lemma main_second_run:
  assumes "is_dir (disk w1) dest_dir" and "disk w1 (butlast dest_dir) \<noteq> None"
    and "disk w1 dest_file \<noteq> None"
  shows "main net w1 =
     (Inr (), print (check_mark @ '' Model already exists: '' @ OUTPUT_PATH) w1)"
proof -
  from assms(1,2) have "makedirs_at dest_dir True (disk w1) = (Inr (), disk w1)"
    by (intro makedirs_at_noop) simp_all
  from main_file_present [OF this assms(3)] show ?thesis
    by simp
qed

lemma makedirs_dest_file: "makedirs_at dest_dir ok fs = (r, fs1) \<Longrightarrow> fs1 dest_file = fs dest_file"
  using makedirs_at_grows [of dest_dir ok fs r fs1 dest_file] dest_file_not_dir by auto

text \<open>
  Claim C1, amended. When a first run of the fetcher returns normally, a second run makes no
  network request, prints the confirmation and returns, and leaves the file system as the
  first run left it, so the file at the output path is byte for byte the same. The first
  run has made exactly one request when the output file was absent at the start, and none
  when it was present.
\<close>

theorem main_twice:
  assumes "main net1 w = (Inr (), w1)"
  shows "main net2 w1 =
           (Inr (), print (check_mark @ '' Model already exists: '' @ OUTPUT_PATH) w1) \<and>
         requests (snd (main net2 w1)) = requests w1 \<and>
         disk (snd (main net2 w1)) = disk w1 \<and>
         requests w1 = requests w @ (if disk w dest_file = None then [MODEL_URL] else [])"
proof -
  obtain r fs1 where mk: "makedirs_at dest_dir True (disk w) = (r, fs1)"
    by (cases "makedirs_at dest_dir True (disk w)")
  have "r = Inr ()"
  proof (cases r)
    case (Inl e)
    with mk main_makedirs_raises [of w e fs1 net1] assms show ?thesis by simp
  next
    case (Inr u)
    then show ?thesis by simp
  qed
  with mk have mk: "makedirs_at dest_dir True (disk w) = (Inr (), fs1)"
    by simp
  from makedirs_at_success [OF mk] have dir: "is_dir fs1 dest_dir" "fs1 (butlast dest_dir) \<noteq> None"
    by (simp_all add: dest_dir_nonempty)
  have same: "fs1 dest_file = disk w dest_file"
    using mk by (rule makedirs_dest_file)
  have w1: "is_dir (disk w1) dest_dir \<and> disk w1 (butlast dest_dir) \<noteq> None \<and>
            disk w1 dest_file \<noteq> None \<and>
            requests w1 = requests w @ (if disk w dest_file = None then [MODEL_URL] else [])"
  proof (cases "fs1 dest_file = None")
    case False
    from main_file_present [OF mk False, of net1] assms dir False same show ?thesis
      by (auto simp add: print_def)
  next
    case True
    from main_file_absent [OF mk True, of net1] assms dir True same dest_file_not_dir
    show ?thesis
      by (cases "net1 MODEL_URL") (auto simp add: is_dir_def)
  qed
  then have "main net2 w1 =
           (Inr (), print (check_mark @ '' Model already exists: '' @ OUTPUT_PATH) w1)"
    by (intro main_second_run) simp_all
  with w1 show ?thesis
    by (simp add: print_def)
qed

lemma pair_fst_snd: "fst x = a \<Longrightarrow> x = (a, snd x)"
  by (cases x) simp

lemma makedirs_fresh:
  "\<exists>fs1. makedirs_at dest_dir True cwd_only = (Inr (), fs1) \<and> fs1 dest_file = None"
proof -
  have "\<forall>q. leads_to q dest_dir \<longrightarrow> cwd_only q = None \<or> cwd_only q = Some Dir"
    by (simp add: leads_to_def cwd_only_absent)
  from makedirs_at_succeeds [OF well_formed_cwd_only dest_dir_nonempty(1) this]
  obtain fs1 where mk: "makedirs_at dest_dir True cwd_only = (Inr (), fs1)" ..
  from makedirs_dest_file [OF mk] have "fs1 dest_file = None"
    by (simp add: cwd_only_absent dest_dir_nonempty)
  with mk show ?thesis by blast
qed

lemma leads_to_length: "leads_to q p \<Longrightarrow> 0 < length q \<and> length q \<le> length p"
proof -
  assume "leads_to q p"
  then have "q \<noteq> []" and "length (take (length q) p) = length q"
    by (simp_all add: leads_to_def)
  then show ?thesis by simp
qed

lemma leads_to_dest_dir:
  "leads_to q dest_dir \<longleftrightarrow>
     q = [''app''] \<or> q = [''app'', ''src''] \<or> q = [''app'', ''src'', ''main''] \<or>
     q = [''app'', ''src'', ''main'', ''assets'']"
proof
  assume a: "leads_to q dest_dir"
  from leads_to_length [OF a] have "0 < length q \<and> length q \<le> 4"
    by (simp add: dest_dir_eq)
  then have "length q = 1 \<or> length q = 2 \<or> length q = 3 \<or> length q = 4"
    by arith
  moreover from a have "take (length q) dest_dir = q"
    by (simp add: leads_to_def)
  ultimately show
    "q = [''app''] \<or> q = [''app'', ''src''] \<or> q = [''app'', ''src'', ''main''] \<or>
     q = [''app'', ''src'', ''main'', ''assets'']"
    by (auto simp add: dest_dir_eq numeral_2_eq_2 numeral_3_eq_3)
next
  assume "q = [''app''] \<or> q = [''app'', ''src''] \<or> q = [''app'', ''src'', ''main''] \<or>
     q = [''app'', ''src'', ''main'', ''assets'']"
  then show "leads_to q dest_dir"
    by (auto simp add: leads_to_def dest_dir_eq)
qed

lemma main_installed:
  assumes "disk w = installed"
  shows "main net w = (Inr (), print (check_mark @ '' Model already exists: '' @ OUTPUT_PATH) w)"
proof -
  from assms have "is_dir (disk w) dest_dir" "disk w (butlast dest_dir) \<noteq> None"
    "disk w dest_file \<noteq> None"
    by (simp_all add: installed_def is_dir_def dest_dir_eq dest_file_eq)
  then show ?thesis
    by (rule main_second_run)
qed

text \<open>
  The output path does not exist and the URL serves the three bytes \<open>ABC\<close>: after two
  runs one request has been made and the file holds \<open>ABC\<close>.
\<close>

theorem main_twice_witness:
  "fst (main serves_ABC fresh_world) = Inr () \<and>
   requests (snd (main serves_ABC (snd (main serves_ABC fresh_world)))) = [MODEL_URL] \<and>
   disk (snd (main serves_ABC (snd (main serves_ABC fresh_world)))) dest_file =
     Some (File ''ABC'')"
proof -
  define w1 where "w1 = snd (main serves_ABC fresh_world)"
  from makedirs_fresh obtain fs1 where
    mk: "makedirs_at dest_dir True (disk fresh_world) = (Inr (), fs1)" and "fs1 dest_file = None"
    by (auto simp add: fresh_world_def)
  from main_file_absent [OF this, of serves_ABC]
  have first: "fst (main serves_ABC fresh_world) = Inr ()"
    and written: "disk w1 dest_file = Some (File ''ABC'')"
    by (simp_all add: serves_ABC_def w1_def)
  from first have "main serves_ABC fresh_world = (Inr (), w1)"
    unfolding w1_def by (rule pair_fst_snd)
  from main_twice [OF this, of serves_ABC]
  have "requests (snd (main serves_ABC w1)) = requests w1"
    and "disk (snd (main serves_ABC w1)) = disk w1"
    and "requests w1 =
      requests fresh_world @ (if disk fresh_world dest_file = None then [MODEL_URL] else [])"
    by blast+
  moreover have "disk fresh_world dest_file = None" "requests fresh_world = []"
    by (simp_all add: fresh_world_def cwd_only_absent dest_dir_nonempty)
  ultimately have "requests (snd (main serves_ABC w1)) = [MODEL_URL]"
    and "disk (snd (main serves_ABC w1)) dest_file = Some (File ''ABC'')"
    using written by simp_all
  with first show ?thesis
    unfolding w1_def by blast
qed

text \<open>
  Claim C1 says that two runs make exactly one request from every file system state. With
  the file already in place two runs make none; with an unreachable server two runs make
  two.
\<close>

theorem main_twice_not_one_fetch:
  "requests (snd (main serves_ABC (snd (main serves_ABC installed_world)))) = [] \<and>
   requests (snd (main unreachable (snd (main unreachable fresh_world)))) =
     [MODEL_URL, MODEL_URL]"
proof
  define w1 where
    "w1 = print (check_mark @ '' Model already exists: '' @ OUTPUT_PATH) installed_world"
  have "main serves_ABC installed_world = (Inr (), w1)"
    unfolding w1_def by (rule main_installed) (simp add: installed_world_def)
  moreover have "disk w1 = installed" "requests w1 = []"
    by (simp_all add: w1_def print_def installed_world_def)
  moreover from \<open>disk w1 = installed\<close> have "main serves_ABC w1 =
      (Inr (), print (check_mark @ '' Model already exists: '' @ OUTPUT_PATH) w1)"
    by (rule main_installed)
  ultimately show
    "requests (snd (main serves_ABC (snd (main serves_ABC installed_world)))) = []"
    by (simp add: print_def)
next
  from makedirs_fresh obtain fs1 where
    mk: "makedirs_at dest_dir True (disk fresh_world) = (Inr (), fs1)"
    and absent: "fs1 dest_file = None"
    by (auto simp add: fresh_world_def)
  define w1 where "w1 = fresh_world\<lparr>disk := fs1, requests := requests fresh_world @ [MODEL_URL],
                    stdout := stdout fresh_world @ [''Downloading Silero VAD model...'']\<rparr>"
  from main_file_absent [OF mk absent, of unreachable]
  have first: "main unreachable fresh_world = (Inl URLError, w1)"
    by (simp add: unreachable_def w1_def)
  have disk_w1: "disk w1 = fs1" and req_w1: "requests w1 = [MODEL_URL]"
    by (simp_all add: w1_def fresh_world_def)
  from makedirs_at_success [OF mk] have "is_dir fs1 dest_dir" "fs1 (butlast dest_dir) \<noteq> None"
    by (simp_all add: dest_dir_nonempty)
  then have "makedirs_at dest_dir True fs1 = (Inr (), fs1)"
    by (intro makedirs_at_noop) simp_all
  with disk_w1 have "makedirs_at dest_dir True (disk w1) = (Inr (), fs1)"
    by simp
  from main_file_absent [OF this absent, of unreachable] req_w1
  have "requests (snd (main unreachable w1)) = [MODEL_URL, MODEL_URL]"
    by (simp add: unreachable_def)
  with first
  show "requests (snd (main unreachable (snd (main unreachable fresh_world)))) =
     [MODEL_URL, MODEL_URL]"
    by simp
qed

lemma main_skips_existing_file_aux:
  assumes "well_formed (disk w)" and "disk w dest_file = Some node"
  shows "main net w =
           (Inr (), print (check_mark @ '' Model already exists: '' @ OUTPUT_PATH) w)"
proof -
  from well_formed_parent [OF assms(1), of dest_file] assms(2)
  have dir: "disk w dest_dir = Some Dir"
    by (simp add: dest_file_parent)
  with well_formed_parent [OF assms(1), of dest_dir]
  have "disk w (butlast dest_dir) = Some Dir"
    by simp
  with dir assms(2) show ?thesis
    by (intro main_second_run) (simp_all add: is_dir_def)
qed

text \<open>
  Claim C3. When something exists at the output path, whatever it holds, the fetcher makes
  no network request: it prints the confirmation and returns, and the file system is as it
  was.
\<close>

theorem main_skips_existing_file:
  assumes "well_formed (disk w)" and "disk w dest_file = Some node"
  shows "main net w =
           (Inr (), print (check_mark @ '' Model already exists: '' @ OUTPUT_PATH) w) \<and>
         requests (snd (main net w)) = requests w \<and>
         disk (snd (main net w)) = disk w"
  using main_skips_existing_file_aux [OF assms, of net]
  by (simp add: print_def)

text \<open>An old model file is left alone.\<close>

theorem main_skips_existing_file_witness:
  "disk installed_world dest_file = Some (File ''old'') \<and>
   fst (main serves_ABC installed_world) = Inr () \<and>
   requests (snd (main serves_ABC installed_world)) = [] \<and>
   disk (snd (main serves_ABC installed_world)) dest_file = Some (File ''old'')"
  using main_skips_existing_file [of installed_world "File ''old''" serves_ABC]
  by (simp add: installed_world_def well_formed_installed installed_dest print_def)

lemma script_of_main:
  "script net w =
     (case fst (main net w) of
        Inl e \<Rightarrow> \<lparr>exit_status = 1, traceback = Some e, final = snd (main net w)\<rparr>
      | Inr u \<Rightarrow> \<lparr>exit_status = 0, traceback = None, final = snd (main net w)\<rparr>)"
  by (cases "main net w") (auto simp add: script_def split: sum.splits)

text \<open>
  Claim C5, amended. Whatever \<open>main\<close> raises ends the script with exit status 1 and a
  traceback of that exception. An error of the directory creation leaves \<open>main\<close> before
  any request. With the directory made and the file absent, one request is made: if it
  fails before a response is opened, \<open>main\<close> raises and no file is created at the output
  path; if the transfer breaks midway, \<open>main\<close> raises and the bytes received so far stay
  in the file; only a complete body makes \<open>main\<close> return. The script ends with status 0
  only when \<open>main\<close> has returned, and then something exists at the output path.
\<close>

theorem main_errors_reach_the_top:
  "(fst (main net w) = Inl e \<longrightarrow>
      exit_status (script net w) = 1 \<and> traceback (script net w) = Some e \<and>
      final (script net w) = snd (main net w)) \<and>
   (fst (os_makedirs (os_path_dirname OUTPUT_PATH) True (disk w)) = Inl e \<longrightarrow>
      fst (main net w) = Inl e \<and> requests (snd (main net w)) = requests w) \<and>
   (fst (os_makedirs (os_path_dirname OUTPUT_PATH) True (disk w)) = Inr () \<and>
    disk w dest_file = None \<longrightarrow>
      requests (snd (main net w)) = requests w @ [MODEL_URL] \<and>
      (net MODEL_URL = OpenFailed e \<longrightarrow>
         fst (main net w) = Inl e \<and> disk (snd (main net w)) dest_file = None) \<and>
      (net MODEL_URL = Interrupted part e \<longrightarrow>
         fst (main net w) = Inl e \<and> disk (snd (main net w)) dest_file = Some (File part)) \<and>
      (net MODEL_URL = Complete body \<longrightarrow>
         fst (main net w) = Inr () \<and> disk (snd (main net w)) dest_file = Some (File body))) \<and>
   (exit_status (script net w) = 0 \<longleftrightarrow> fst (main net w) = Inr ()) \<and>
   (fst (main net w) = Inr () \<longrightarrow> disk (snd (main net w)) dest_file \<noteq> None)"
proof -
  obtain r fs1 where mk: "makedirs_at dest_dir True (disk w) = (r, fs1)"
    by (cases "makedirs_at dest_dir True (disk w)")
  have same: "fs1 dest_file = disk w dest_file"
    using mk by (rule makedirs_dest_file)
  have top: "fst (main net w) = Inl e \<longrightarrow>
      exit_status (script net w) = 1 \<and> traceback (script net w) = Some e \<and>
      final (script net w) = snd (main net w)"
    by (simp add: script_of_main)
  have status: "exit_status (script net w) = 0 \<longleftrightarrow> fst (main net w) = Inr ()"
    by (cases "fst (main net w)") (simp_all add: script_of_main)
  show ?thesis
  proof (cases r)
    case (Inl e')
    with mk main_makedirs_raises [of w e' fs1 net] top status show ?thesis
      by (simp add: os_makedirs_dest)
  next
    case (Inr u)
    with mk have mk': "makedirs_at dest_dir True (disk w) = (Inr (), fs1)"
      by simp
    show ?thesis
    proof (cases "fs1 dest_file = None")
      case False
      from main_file_present [OF mk' False, of net] mk' top status same False show ?thesis
        by (simp add: os_makedirs_dest print_def)
    next
      case True
      from main_file_absent [OF mk' True, of net] mk' top status same True show ?thesis
        by (cases "net MODEL_URL") (simp_all add: os_makedirs_dest)
    qed
  qed
qed

text \<open>An unreachable server: status 1, a traceback, no file.\<close>

theorem main_errors_reach_the_top_witness:
  "exit_status (script unreachable fresh_world) = 1 \<and>
   traceback (script unreachable fresh_world) = Some URLError \<and>
   disk (final (script unreachable fresh_world)) dest_file = None"
proof -
  from makedirs_fresh have mk: "fst (os_makedirs (os_path_dirname OUTPUT_PATH) True
      (disk fresh_world)) = Inr ()"
    by (auto simp add: os_makedirs_dest fresh_world_def)
  have absent: "disk fresh_world dest_file = None"
    by (simp add: fresh_world_def cwd_only_absent dest_dir_nonempty)
  have net: "unreachable MODEL_URL = OpenFailed URLError"
    by (simp add: unreachable_def)
  from main_errors_reach_the_top [of unreachable fresh_world URLError "[]" "[]"]
    mk absent net
  show ?thesis
    by simp
qed

text \<open>
  Claim C5 says that after a failed download no destination file is created or left
  partially written. When the connection drops after two bytes, the script fails and the
  output path holds those two bytes.
\<close>

theorem main_leaves_partial_file:
  "fst (main drops_after_AB fresh_world) = Inl ContentTooShortError \<and>
   exit_status (script drops_after_AB fresh_world) = 1 \<and>
   disk (snd (main drops_after_AB fresh_world)) dest_file = Some (File ''AB'')"
proof -
  from makedirs_fresh obtain fs1 where
    mk: "makedirs_at dest_dir True (disk fresh_world) = (Inr (), fs1)" and "fs1 dest_file = None"
    by (auto simp add: fresh_world_def)
  from main_file_absent [OF this, of drops_after_AB] show ?thesis
    by (simp add: drops_after_AB_def script_of_main)
qed

text \<open>
  Claim C7. In a file system where each of \<open>app\<close>, \<open>app/src\<close>, \<open>app/src/main\<close> and
  \<open>app/src/main/assets\<close> is absent or is a directory, the directory creation of the
  fetcher returns without an error, and afterwards all four are directories. Every entry
  that existed before is unchanged, nothing outside these four paths is touched, and when
  the destination directory already existed the file system is left exactly as it was.
  The fetcher then raises only what the download raises.
\<close>

theorem main_creates_directory:
  assumes "well_formed (disk w)"
    and "\<forall>q. leads_to q dest_dir \<longrightarrow> disk w q = None \<or> disk w q = Some Dir"
  shows "\<exists>fs1.
     os_makedirs (os_path_dirname OUTPUT_PATH) True (disk w) = (Inr (), fs1) \<and>
     is_dir fs1 [''app''] \<and> is_dir fs1 [''app'', ''src''] \<and>
     is_dir fs1 [''app'', ''src'', ''main''] \<and>
     is_dir fs1 [''app'', ''src'', ''main'', ''assets''] \<and>
     (\<forall>q. disk w q \<noteq> None \<longrightarrow> fs1 q = disk w q) \<and>
     (\<forall>q. \<not> leads_to q dest_dir \<longrightarrow> fs1 q = disk w q) \<and>
     (is_dir (disk w) dest_dir \<longrightarrow> fs1 = disk w) \<and>
     (\<forall>q. leads_to q dest_dir \<longrightarrow> is_dir (disk (snd (main net w))) q) \<and>
     (\<forall>e. fst (main net w) = Inl e \<longrightarrow>
        net MODEL_URL = OpenFailed e \<or> (\<exists>part. net MODEL_URL = Interrupted part e))"
proof -
  from makedirs_at_succeeds [OF assms(1) dest_dir_nonempty(1) assms(2)]
  obtain fs1 where mk: "makedirs_at dest_dir True (disk w) = (Inr (), fs1)" ..
  from makedirs_at_well_formed [OF assms(1) mk] have wf1: "well_formed fs1" .
  from makedirs_at_success [OF mk] have top: "fs1 dest_dir = Some Dir"
    by (simp add: is_dir_def)
  have dirs: "is_dir fs1 q" if "leads_to q dest_dir" for q
  proof (cases "length q < length dest_dir")
    case True
    from well_formed_ancestors [OF wf1 _ True] top that show ?thesis
      by (simp add: is_dir_def leads_to_def)
  next
    case False
    with leads_to_length [OF that] have "length q = length dest_dir" by simp
    with that have "q = dest_dir" by (simp add: leads_to_def)
    with top show ?thesis by (simp add: is_dir_def)
  qed
  have keeps: "\<forall>q. disk w q \<noteq> None \<longrightarrow> fs1 q = disk w q"
    using makedirs_at_keeps [OF mk] by blast
  have frame: "\<forall>q. \<not> leads_to q dest_dir \<longrightarrow> fs1 q = disk w q"
    using makedirs_at_grows [OF mk] by blast
  have noop: "is_dir (disk w) dest_dir \<longrightarrow> fs1 = disk w"
  proof
    assume d: "is_dir (disk w) dest_dir"
    with well_formed_parent [OF assms(1), of dest_dir]
    have "disk w (butlast dest_dir) \<noteq> None"
      by (simp add: is_dir_def)
    with d have "makedirs_at dest_dir True (disk w) = (Inr (), disk w)"
      by (intro makedirs_at_noop) simp_all
    with mk show "fs1 = disk w" by simp
  qed
  have after: "(\<forall>q. leads_to q dest_dir \<longrightarrow> is_dir (disk (snd (main net w))) q) \<and>
     (\<forall>e. fst (main net w) = Inl e \<longrightarrow>
        net MODEL_URL = OpenFailed e \<or> (\<exists>part. net MODEL_URL = Interrupted part e))"
  proof (cases "fs1 dest_file = None")
    case False
    from main_file_present [OF mk False, of net] dirs show ?thesis
      by (simp add: print_def)
  next
    case True
    have "q \<noteq> dest_file" if "leads_to q dest_dir" for q
      using that dest_file_not_dir(1) by auto
    with main_file_absent [OF mk True, of net] dirs show ?thesis
      by (cases "net MODEL_URL") (auto simp add: is_dir_def)
  qed
  from dirs have "is_dir fs1 [''app'']" "is_dir fs1 [''app'', ''src'']"
    "is_dir fs1 [''app'', ''src'', ''main'']" "is_dir fs1 [''app'', ''src'', ''main'', ''assets'']"
    by (simp_all add: leads_to_dest_dir)
  with mk keeps frame noop after show ?thesis
    by (simp add: os_makedirs_dest)
qed

text \<open>From an empty current directory the whole path is created.\<close>

theorem main_creates_directory_witness:
  "is_dir (disk (snd (main serves_ABC fresh_world))) [''app''] \<and>
   is_dir (disk (snd (main serves_ABC fresh_world))) [''app'', ''src''] \<and>
   is_dir (disk (snd (main serves_ABC fresh_world))) [''app'', ''src'', ''main''] \<and>
   is_dir (disk (snd (main serves_ABC fresh_world))) [''app'', ''src'', ''main'', ''assets''] \<and>
   fst (main serves_ABC fresh_world) = Inr ()"
proof -
  have "well_formed (disk fresh_world)"
    by (simp add: fresh_world_def well_formed_cwd_only)
  moreover have "\<forall>q. leads_to q dest_dir \<longrightarrow>
      disk fresh_world q = None \<or> disk fresh_world q = Some Dir"
    by (simp add: fresh_world_def leads_to_def cwd_only_absent)
  ultimately obtain fs1 where
    dirs: "\<forall>q. leads_to q dest_dir \<longrightarrow> is_dir (disk (snd (main serves_ABC fresh_world))) q"
    and err: "\<forall>e. fst (main serves_ABC fresh_world) = Inl e \<longrightarrow>
        serves_ABC MODEL_URL = OpenFailed e \<or>
        (\<exists>part. serves_ABC MODEL_URL = Interrupted part e)"
    using main_creates_directory [of fresh_world serves_ABC] by blast
  from err have "fst (main serves_ABC fresh_world) = Inr ()"
    by (cases "fst (main serves_ABC fresh_world)") (simp_all add: serves_ABC_def)
  with dirs show ?thesis
    by (simp add: leads_to_dest_dir)
qed

text \<open>
  Claim C10. The fetcher makes the destination directory first: whenever the directory
  creation returns, the destination directory exists when \<open>main\<close> ends, whatever the
  download does, and when the creation raises, \<open>main\<close> raises before it has printed or
  requested anything. An invocation that finds the file present makes no request and
  changes nothing outside the destination directory and its parents; in a well-formed file
  system it returns, the directory exists, and no path at all has changed.
\<close>

theorem main_makes_directory_before_check:
  "(fst (os_makedirs (os_path_dirname OUTPUT_PATH) True (disk w)) = Inr () \<longrightarrow>
      is_dir (disk (snd (main net w))) dest_dir) \<and>
   (fst (os_makedirs (os_path_dirname OUTPUT_PATH) True (disk w)) = Inl e \<longrightarrow>
      fst (main net w) = Inl e \<and> stdout (snd (main net w)) = stdout w \<and>
      requests (snd (main net w)) = requests w) \<and>
   (disk w dest_file \<noteq> None \<longrightarrow>
      requests (snd (main net w)) = requests w \<and>
      (\<forall>q. \<not> leads_to q dest_dir \<longrightarrow> disk (snd (main net w)) q = disk w q) \<and>
      (well_formed (disk w) \<longrightarrow>
         fst (main net w) = Inr () \<and> is_dir (disk (snd (main net w))) dest_dir \<and>
         disk (snd (main net w)) = disk w))"
proof -
  obtain r fs1 where mk: "makedirs_at dest_dir True (disk w) = (r, fs1)"
    by (cases "makedirs_at dest_dir True (disk w)")
  have same: "fs1 dest_file = disk w dest_file"
    using mk by (rule makedirs_dest_file)
  have frame: "\<forall>q. \<not> leads_to q dest_dir \<longrightarrow> fs1 q = disk w q"
    using makedirs_at_grows [OF mk] by blast
  have real: "fst (main net w) = Inr () \<and> is_dir (disk (snd (main net w))) dest_dir \<and>
         disk (snd (main net w)) = disk w"
    if a: "disk w dest_file \<noteq> None" and wf: "well_formed (disk w)"
  proof -
    from a obtain node where "disk w dest_file = Some node" by auto
    from main_skips_existing_file_aux [OF wf this, of net]
    have "fst (main net w) = Inr ()" "disk (snd (main net w)) = disk w"
      by (simp_all add: print_def)
    moreover from well_formed_parent [OF wf a] have "is_dir (disk w) dest_dir"
      by (simp add: is_dir_def dest_file_parent)
    ultimately show ?thesis by simp
  qed
  have rest: "(fst (os_makedirs (os_path_dirname OUTPUT_PATH) True (disk w)) = Inr () \<longrightarrow>
      is_dir (disk (snd (main net w))) dest_dir) \<and>
   (fst (os_makedirs (os_path_dirname OUTPUT_PATH) True (disk w)) = Inl e \<longrightarrow>
      fst (main net w) = Inl e \<and> stdout (snd (main net w)) = stdout w \<and>
      requests (snd (main net w)) = requests w) \<and>
   (disk w dest_file \<noteq> None \<longrightarrow>
      requests (snd (main net w)) = requests w \<and>
      (\<forall>q. \<not> leads_to q dest_dir \<longrightarrow> disk (snd (main net w)) q = disk w q))"
  proof (cases r)
    case (Inl e')
    with mk main_makedirs_raises [of w e' fs1 net] frame show ?thesis
      by (simp add: os_makedirs_dest)
  next
    case (Inr u)
    with mk have mk': "makedirs_at dest_dir True (disk w) = (Inr (), fs1)"
      by simp
    from makedirs_at_success [OF mk'] have dir: "is_dir fs1 dest_dir"
      by simp
    show ?thesis
    proof (cases "fs1 dest_file = None")
      case False
      from main_file_present [OF mk' False, of net] mk' dir frame same show ?thesis
        by (simp add: os_makedirs_dest print_def)
    next
      case True
      from main_file_absent [OF mk' True, of net] mk' dir same True dest_file_not_dir
      show ?thesis
        by (cases "net MODEL_URL") (simp_all add: os_makedirs_dest is_dir_def)
    qed
  qed
  with real show ?thesis
    by blast
qed

text \<open>
  With the model installed nothing changes; with an unreachable server the directory is
  there although nothing was downloaded.
\<close>

theorem main_makes_directory_before_check_witness:
  "requests (snd (main serves_ABC installed_world)) = [] \<and>
   is_dir (disk (snd (main serves_ABC installed_world))) dest_dir \<and>
   disk (snd (main serves_ABC installed_world)) = installed \<and>
   is_dir (disk (snd (main unreachable fresh_world))) dest_dir"
proof -
  from makedirs_fresh have mk: "fst (os_makedirs (os_path_dirname OUTPUT_PATH) True
      (disk fresh_world)) = Inr ()"
    by (auto simp add: os_makedirs_dest fresh_world_def)
  have present: "disk installed_world dest_file \<noteq> None" "well_formed (disk installed_world)"
    "requests installed_world = []" "disk installed_world = installed"
    by (simp_all add: installed_world_def well_formed_installed installed_dest)
  from main_makes_directory_before_check [of fresh_world unreachable OSError] mk
  have "is_dir (disk (snd (main unreachable fresh_world))) dest_dir"
    by blast
  moreover from main_makes_directory_before_check [of installed_world serves_ABC OSError]
    present(1,2)
  have "requests (snd (main serves_ABC installed_world)) = requests installed_world"
    "is_dir (disk (snd (main serves_ABC installed_world))) dest_dir"
    "disk (snd (main serves_ABC installed_world)) = disk installed_world"
    by blast+
  ultimately show ?thesis
    using present(3,4) by simp
qed

section \<open>Properties of the session orchestrator\<close>

lemma forget_Returns: "forget r = Returns u \<longleftrightarrow> (\<exists>x. r = Returns x)"
  by (cases r) (simp_all add: forget_def)

lemma construct_Returns: "construct f x = Returns y \<longleftrightarrow> f = None \<and> y = x"
  by (cases f) (auto simp add: construct_def)

lemma construct_Raises: "construct f x = Raises e \<longleftrightarrow> f = Some e"
  by (cases f) (auto simp add: construct_def)

lemma forget_Raises: "forget r = Raises e \<longleftrightarrow> r = Raises e"
  by (cases r) (simp_all add: forget_def)

lemma entrypoint_body_all_return:
  assumes "\<forall>s \<in> set steps_1_to_6. step_result ctx s = Returns ()"
  shows "\<exists>identity. wait_for_participant ctx = Returns identity \<and>
     entrypoint_body ctx [] =
       (if cancelled ctx then Raises (Exn CancelledError []) else Suspended,
        [LogInfo (''Connecting to room '' @ room_name ctx),
         Connect,
         WaitForParticipant,
         LogInfo (''Participant connected: '' @ identity),
         NewRealtimeModel ''gemini-2.0-flash-exp'' ''You are Vanta, a helpful assistant.'',
         NewAgentSession (RealtimeModel ''gemini-2.0-flash-exp'' ''You are Vanta, a helpful assistant.''),
         NewAgent ''You are Vanta.'',
         SessionStart (AgentSession (RealtimeModel ''gemini-2.0-flash-exp'' ''You are Vanta, a helpful assistant.''))
           (room_name ctx) (Agent ''You are Vanta.''),
         GenerateReply (AgentSession (RealtimeModel ''gemini-2.0-flash-exp'' ''You are Vanta, a helpful assistant.''))
           ''Say hello to the user and introduce yourself as Vanta.'',
         AwaitFuture])"
proof -
  from assms obtain identity where
    "connect ctx = Returns ()" "wait_for_participant ctx = Returns identity"
    "new_RealtimeModel ctx = None" "new_AgentSession ctx = None" "new_Agent ctx = None"
    "session_start ctx = Returns ()" "generate_reply ctx = Returns ()"
    by (auto simp add: steps_1_to_6_def forget_Returns construct_Returns)
  then show ?thesis
    by (simp add: entrypoint_body_def and_then_def call_def logger_info_def construct_def
        await_Future_def)
qed


lemma before_simps:
  "before S_connect = []"
  "before S_wait = [S_connect]"
  "before S_model = [S_connect, S_wait]"
  "before S_session = [S_connect, S_wait, S_model]"
  "before S_agent = [S_connect, S_wait, S_model, S_session]"
  "before S_start = [S_connect, S_wait, S_model, S_session, S_agent]"
  "before S_greet = [S_connect, S_wait, S_model, S_session, S_agent, S_start]"
  "before S_future = [S_connect, S_wait, S_model, S_session, S_agent, S_start, S_greet]"
  by (simp_all add: before_def steps_1_to_7_def steps_1_to_6_def)

lemma entrypoint_body_stops_at:
  assumes "\<forall>s \<in> set (before k). step_result ctx s = Returns ()"
    and "step_result ctx k \<noteq> Returns ()"
  shows "\<exists>t. entrypoint_body ctx [] = (step_result ctx k, t) \<and>
             invoked t = before k @ [k] \<and> error_entries t = []"
proof (cases k)
  case S_connect
  with assms show ?thesis
    by (cases "connect ctx")
      (simp_all add: before_simps entrypoint_body_def and_then_def call_def logger_info_def
        invoked_def error_entries_def)
next
  case S_wait
  with assms show ?thesis
    by (cases "wait_for_participant ctx")
      (simp_all add: before_simps entrypoint_body_def and_then_def call_def logger_info_def
        invoked_def error_entries_def forget_def)
next
  case S_model
  with assms obtain identity e where
    "connect ctx = Returns ()" "wait_for_participant ctx = Returns identity"
    "new_RealtimeModel ctx = Some e"
    by (cases "new_RealtimeModel ctx")
      (auto simp add: before_simps forget_Returns construct_Returns)
  with S_model show ?thesis
    by (simp add: before_simps entrypoint_body_def and_then_def call_def logger_info_def
        invoked_def error_entries_def construct_def)
next
  case S_session
  with assms obtain identity e where
    "connect ctx = Returns ()" "wait_for_participant ctx = Returns identity"
    "new_RealtimeModel ctx = None" "new_AgentSession ctx = Some e"
    by (cases "new_AgentSession ctx")
      (auto simp add: before_simps forget_Returns construct_Returns)
  with S_session show ?thesis
    by (simp add: before_simps entrypoint_body_def and_then_def call_def logger_info_def
        invoked_def error_entries_def construct_def)
next
  case S_agent
  with assms obtain identity e where
    "connect ctx = Returns ()" "wait_for_participant ctx = Returns identity"
    "new_RealtimeModel ctx = None" "new_AgentSession ctx = None" "new_Agent ctx = Some e"
    by (cases "new_Agent ctx")
      (auto simp add: before_simps forget_Returns construct_Returns)
  with S_agent show ?thesis
    by (simp add: before_simps entrypoint_body_def and_then_def call_def logger_info_def
        invoked_def error_entries_def construct_def)
next
  case S_start
  with assms obtain identity where
    "connect ctx = Returns ()" "wait_for_participant ctx = Returns identity"
    "new_RealtimeModel ctx = None" "new_AgentSession ctx = None" "new_Agent ctx = None"
    "session_start ctx \<noteq> Returns ()"
    by (auto simp add: before_simps forget_Returns construct_Returns)
  with S_start show ?thesis
    by (cases "session_start ctx")
      (simp_all add: before_simps entrypoint_body_def and_then_def call_def logger_info_def
        invoked_def error_entries_def construct_def)
next
  case S_greet
  with assms obtain identity where
    "connect ctx = Returns ()" "wait_for_participant ctx = Returns identity"
    "new_RealtimeModel ctx = None" "new_AgentSession ctx = None" "new_Agent ctx = None"
    "session_start ctx = Returns ()" "generate_reply ctx \<noteq> Returns ()"
    by (auto simp add: before_simps forget_Returns construct_Returns)
  with S_greet show ?thesis
    by (cases "generate_reply ctx")
      (simp_all add: before_simps entrypoint_body_def and_then_def call_def logger_info_def
        invoked_def error_entries_def construct_def)
next
  case S_future
  with assms have "\<forall>s \<in> set steps_1_to_6. step_result ctx s = Returns ()"
    by (simp add: before_simps steps_1_to_6_def)
  from entrypoint_body_all_return [OF this] S_future show ?thesis
    by (auto simp add: before_simps invoked_def error_entries_def)
qed

lemma invoked_snoc_log: "invoked (t @ [LogError m x]) = invoked t"
  by (simp add: invoked_def List.map_filter_def)

lemma error_entries_snoc_log: "error_entries (t @ [LogError m x]) = error_entries t @ [LogError m x]"
  by (simp add: error_entries_def)

text \<open>
  Claim C2 says that every exception raised during steps 1 to 6 is caught, logged and
  followed by a normal return. A cancellation that arrives during the participant wait is
  an exception raised during step 2; it is not caught: the entrypoint raises it to its
  caller, logs no error entry and does not return normally.
\<close>

theorem entrypoint_does_not_catch_cancellation:
  "step_result wait_cancelled_job S_wait = Raises (Exn CancelledError []) \<and>
   fst (entrypoint wait_cancelled_job []) = Raises (Exn CancelledError []) \<and>
   fst (entrypoint wait_cancelled_job []) \<noteq> Returns () \<and>
   error_entries (snd (entrypoint wait_cancelled_job [])) = []"
  by (simp add: wait_cancelled_job_def happy_job_def entrypoint_def try_except_Exception_def
      entrypoint_body_def and_then_def call_def logger_info_def forget_def error_entries_def)

text \<open>
  Claim C2, amended. Let one of the steps 1 to 6 raise an exception that is an instance of
  \<open>Exception\<close>, the class the handler \<open>except Exception\<close> names, after the steps
  before it have returned. Then the entrypoint returns normally: it has invoked the steps
  up to the failing one and no other, each once, and it has logged exactly one error entry,
  its last action, with the text of the exception and with the stack trace requested
  (\<open>exc_info=True\<close>).
\<close>

theorem entrypoint_catches_Exception:
  assumes "k \<in> set steps_1_to_6"
    and "\<forall>s \<in> set (before k). step_result ctx s = Returns ()"
    and "step_result ctx k = Raises e"
    and "isinstance_Exception e"
  shows "fst (entrypoint ctx []) = Returns () \<and>
         invoked (snd (entrypoint ctx [])) = before k @ [k] \<and>
         error_entries (snd (entrypoint ctx [])) =
           [LogError (''CRITICAL ERROR: '' @ exn_str e) True] \<and>
         last (snd (entrypoint ctx [])) = LogError (''CRITICAL ERROR: '' @ exn_str e) True"
proof -
  from assms(3) have "step_result ctx k \<noteq> Returns ()"
    by simp
  from entrypoint_body_stops_at [OF assms(2) this] assms(3) obtain t where
    body: "entrypoint_body ctx [] = (Raises e, t)"
    and t: "invoked t = before k @ [k]" "error_entries t = []"
    by auto
  from body assms(4) have
    "entrypoint ctx [] = (Returns (), t @ [LogError (''CRITICAL ERROR: '' @ exn_str e) True])"
    by (simp add: entrypoint_def try_except_Exception_def logger_error_def call_def)
  with t show ?thesis
    by (simp add: invoked_snoc_log error_entries_snoc_log)
qed

text \<open>A session start that raises a \<open>RuntimeError\<close>.\<close>

theorem entrypoint_catches_Exception_witness:
  "step_result start_fails_job S_start = Raises (Exn (ExceptionSubclass ''RuntimeError'') ''boom'') \<and>
   fst (entrypoint start_fails_job []) = Returns () \<and>
   invoked (snd (entrypoint start_fails_job [])) =
     [S_connect, S_wait, S_model, S_session, S_agent, S_start] \<and>
   error_entries (snd (entrypoint start_fails_job [])) = [LogError ''CRITICAL ERROR: boom'' True]"
  using entrypoint_catches_Exception
    [of S_start start_fails_job "Exn (ExceptionSubclass ''RuntimeError'') ''boom''"]
  by (simp add: start_fails_job_def happy_job_def steps_1_to_6_def before_simps
      construct_def forget_def)

text \<open>
  Claim C9. The handler catches instances of \<open>Exception\<close> only. When one of the steps
  1 to 7 raises an exception that does not derive from \<open>Exception\<close> (a cancellation, a
  keyboard interrupt, a system exit), the entrypoint raises that exception to its caller and
  logs no error entry.
\<close>

theorem entrypoint_lets_BaseException_through:
  assumes "k \<in> set steps_1_to_7"
    and "\<forall>s \<in> set (before k). step_result ctx s = Returns ()"
    and "step_result ctx k = Raises e"
    and "\<not> isinstance_Exception e"
  shows "fst (entrypoint ctx []) = Raises e \<and>
         error_entries (snd (entrypoint ctx [])) = [] \<and>
         invoked (snd (entrypoint ctx [])) = before k @ [k]"
proof -
  from assms(3) have "step_result ctx k \<noteq> Returns ()"
    by simp
  from entrypoint_body_stops_at [OF assms(2) this] assms(3) obtain t where
    body: "entrypoint_body ctx [] = (Raises e, t)"
    and t: "invoked t = before k @ [k]" "error_entries t = []"
    by auto
  from body assms(4) have "entrypoint ctx [] = (Raises e, t)"
    by (simp add: entrypoint_def try_except_Exception_def)
  with t show ?thesis
    by simp
qed

text \<open>A task cancelled while the session starts.\<close>

theorem entrypoint_lets_BaseException_through_witness:
  "step_result start_cancelled_job S_start = Raises (Exn CancelledError []) \<and>
   fst (entrypoint start_cancelled_job []) = Raises (Exn CancelledError []) \<and>
   error_entries (snd (entrypoint start_cancelled_job [])) = [] \<and>
   invoked (snd (entrypoint start_cancelled_job [])) =
     [S_connect, S_wait, S_model, S_session, S_agent, S_start]"
  using entrypoint_lets_BaseException_through
    [of S_start start_cancelled_job "Exn CancelledError []"]
  by (simp add: start_cancelled_job_def happy_job_def steps_1_to_7_def steps_1_to_6_def
      before_simps construct_def forget_def)

lemma entrypoint_all_return:
  assumes "\<forall>s \<in> set steps_1_to_6. step_result ctx s = Returns ()"
  shows "entrypoint ctx [] = entrypoint_body ctx []"
proof -
  from entrypoint_body_all_return [OF assms] show ?thesis
    by (auto simp add: entrypoint_def try_except_Exception_def)
qed

text \<open>
  Claim C4. In an invocation where the participant wait resolves and every call of steps
  1 to 6 returns (no call raises, and each awaited call resolves), the run is exactly this
  sequence: the model client is built with the model identifier \<open>gemini-2.0-flash-exp\<close>, the
  session is started once, then the greeting is requested once, and only then does the
  entrypoint reach its final wait.
\<close>

theorem entrypoint_happy_path:
  assumes "wait_for_participant ctx = Returns identity"
    and "\<forall>s \<in> set steps_1_to_6. step_result ctx s = Returns ()"
  shows "snd (entrypoint ctx []) =
       [LogInfo (''Connecting to room '' @ room_name ctx),
        Connect,
        WaitForParticipant,
        LogInfo (''Participant connected: '' @ identity),
        NewRealtimeModel ''gemini-2.0-flash-exp'' ''You are Vanta, a helpful assistant.'',
        NewAgentSession
          (RealtimeModel ''gemini-2.0-flash-exp'' ''You are Vanta, a helpful assistant.''),
        NewAgent ''You are Vanta.'',
        SessionStart
          (AgentSession
             (RealtimeModel ''gemini-2.0-flash-exp'' ''You are Vanta, a helpful assistant.''))
          (room_name ctx) (Agent ''You are Vanta.''),
        GenerateReply
          (AgentSession
             (RealtimeModel ''gemini-2.0-flash-exp'' ''You are Vanta, a helpful assistant.''))
          ''Say hello to the user and introduce yourself as Vanta.'',
        AwaitFuture] \<and>
     invoked (snd (entrypoint ctx [])) = steps_1_to_7 \<and>
     length (filter (\<lambda>s. s = S_start) (invoked (snd (entrypoint ctx [])))) = 1 \<and>
     length (filter (\<lambda>s. s = S_greet) (invoked (snd (entrypoint ctx [])))) = 1"
proof -
  from entrypoint_body_all_return [OF assms(2)] assms(1) entrypoint_all_return [OF assms(2)]
  show ?thesis
    by (auto simp add: invoked_def steps_1_to_7_def steps_1_to_6_def)
qed

text \<open>A run in which every call returns.\<close>

theorem entrypoint_happy_path_witness:
  "invoked (snd (entrypoint happy_job [])) =
     [S_connect, S_wait, S_model, S_session, S_agent, S_start, S_greet, S_future] \<and>
   NewRealtimeModel ''gemini-2.0-flash-exp'' ''You are Vanta, a helpful assistant.''
     \<in> set (snd (entrypoint happy_job []))"
  using entrypoint_happy_path [of happy_job "''alice''"]
  by (simp add: happy_job_def steps_1_to_7_def steps_1_to_6_def construct_def forget_def
      invoked_def)

text \<open>
  Claim C6 says that the entrypoint never returns normally. It does when the room
  connection raises: the handler logs the exception and the entrypoint returns.
\<close>

theorem entrypoint_returns_when_connect_fails:
  "fst (entrypoint connect_fails_job []) = Returns ()"
  by (simp add: connect_fails_job_def happy_job_def entrypoint_def try_except_Exception_def
      entrypoint_body_def and_then_def call_def logger_info_def logger_error_def)

text \<open>
  Claim C6, amended. When every call of steps 1 to 6 returns, the entrypoint requests the
  greeting and then waits on the bare future; it does not return normally: it stays
  suspended, or, if the task is cancelled during the wait, the \<open>CancelledError\<close> leaves
  the entrypoint uncaught.
\<close>

theorem entrypoint_suspends_after_greeting:
  assumes "\<forall>s \<in> set steps_1_to_6. step_result ctx s = Returns ()"
  shows "fst (entrypoint ctx []) \<noteq> Returns () \<and>
         fst (entrypoint ctx []) =
           (if cancelled ctx then Raises (Exn CancelledError []) else Suspended) \<and>
         invoked (snd (entrypoint ctx [])) = steps_1_to_6 @ [S_future] \<and>
         last (snd (entrypoint ctx [])) = AwaitFuture"
proof -
  from entrypoint_body_all_return [OF assms] entrypoint_all_return [OF assms]
  show ?thesis
    by (auto simp add: invoked_def steps_1_to_6_def)
qed

text \<open>A run in which every call returns stays suspended at the final wait.\<close>

theorem entrypoint_suspends_after_greeting_witness:
  "fst (entrypoint happy_job []) = Suspended \<and> last (snd (entrypoint happy_job [])) = AwaitFuture"
  using entrypoint_suspends_after_greeting [of happy_job]
  by (simp add: happy_job_def steps_1_to_6_def construct_def forget_def)

text \<open>
  Claim C8. In a run where every call of steps 1 to 6 returns, the model client is built
  with the instruction \<open>You are Vanta, a helpful assistant.\<close>, the agent descriptor handed
  to the session start carries \<open>You are Vanta.\<close>, and the two strings differ; no run builds
  a model client or starts a session with other instructions.
\<close>

theorem instruction_strings_differ:
  assumes "\<forall>s \<in> set steps_1_to_6. step_result ctx s = Returns ()"
  shows "NewRealtimeModel ''gemini-2.0-flash-exp'' ''You are Vanta, a helpful assistant.''
           \<in> set (snd (entrypoint ctx [])) \<and>
         SessionStart
           (AgentSession
              (RealtimeModel ''gemini-2.0-flash-exp'' ''You are Vanta, a helpful assistant.''))
           (room_name ctx) (Agent ''You are Vanta.'') \<in> set (snd (entrypoint ctx [])) \<and>
         (\<forall>m i s r a. NewRealtimeModel m i \<in> set (snd (entrypoint ctx [])) \<longrightarrow>
            SessionStart s r a \<in> set (snd (entrypoint ctx [])) \<longrightarrow>
            i = ''You are Vanta, a helpful assistant.'' \<and> instructions (llm s) = i \<and>
            agent_instructions a = ''You are Vanta.'' \<and> agent_instructions a \<noteq> i)"
proof -
  from entrypoint_body_all_return [OF assms] entrypoint_all_return [OF assms]
  show ?thesis
    by auto
qed

text \<open>The two instruction strings in a run in which every call returns.\<close>

theorem instruction_strings_differ_witness:
  "NewRealtimeModel ''gemini-2.0-flash-exp'' ''You are Vanta, a helpful assistant.''
     \<in> set (snd (entrypoint happy_job [])) \<and>
   SessionStart
     (AgentSession
        (RealtimeModel ''gemini-2.0-flash-exp'' ''You are Vanta, a helpful assistant.''))
     ''lobby'' (Agent ''You are Vanta.'') \<in> set (snd (entrypoint happy_job []))"
  using instruction_strings_differ [of happy_job]
  by (simp add: happy_job_def steps_1_to_6_def construct_def forget_def)

end
